theory Spec2Isabelle
  imports Main "HOL-Library.Word"
begin

section \<open>The host: JavaScript values and strings\<close>

text \<open>
  \<^verbatim>\<open>src/ls.ts\<close> is a thin layer over three things of its host: JavaScript values with
  \<^verbatim>\<open>JSON.stringify\<close> and \<^verbatim>\<open>JSON.parse\<close>, strings of UTF-16 code units, and the
  \<^verbatim>\<open>localStorage\<close> object. This section fixes the fragment of the host that the
  development computes with.

  A string is the list of its 16-bit code units, so \<^verbatim>\<open>String.fromCharCode\<close> wraps
  around as the host's \<^verbatim>\<open>ToUint16\<close> does. Numbers are the integers: fractions,
  \<^verbatim>\<open>NaN\<close> and the infinities, and the rounding of doubles, are outside the fragment.
  The list of an object's properties is in the order in which the host enumerates them
  and has no key twice.
  \<open>JBigInt\<close> is the one value of the fragment on which \<^verbatim>\<open>JSON.stringify\<close> throws
  (a tree of constructors cannot hold the circular reference of the source's comment).
\<close>

type_synonym jsstring = "16 word list"

definition ascii :: "string \<Rightarrow> jsstring" where
  "ascii s = map of_char s"

datatype exn = TypeError | SyntaxError | QuotaExceededError

datatype jsval =
    JUndefined
  | JNull
  | JBool bool
  | JNum int
  | JBigInt int
  | JStr jsstring
  | JArr "jsval list"
  | JObj "(jsstring \<times> jsval) list"

subsection \<open>Surrogates and the string iterator\<close>

definition is_high :: "16 word \<Rightarrow> bool" where
  "is_high c = (0xD800 \<le> c \<and> c \<le> 0xDBFF)"

definition is_low :: "16 word \<Rightarrow> bool" where
  "is_low c = (0xDC00 \<le> c \<and> c \<le> 0xDFFF)"

text \<open>
  \<^verbatim>\<open>[...str]\<close> iterates a string by code points: a high surrogate followed by a low
  one is a single element of two code units, every other code unit an element by itself.
\<close>

fun code_points :: "jsstring \<Rightarrow> jsstring list" where
  "code_points [] = []"
| "code_points [c] = [[c]]"
| "code_points (c # d # r) =
     (if is_high c \<and> is_low d then [c, d] # code_points r
      else [c] # code_points (d # r))"

subsection \<open>\<^verbatim>\<open>JSON.stringify\<close>\<close>

definition hex_digit :: "nat \<Rightarrow> 16 word" where
  "hex_digit n = (if n < 10 then 0x30 + of_nat n else 0x61 + of_nat (n - 10))"

definition hex4 :: "16 word \<Rightarrow> jsstring" where
  "hex4 c = (let n = unat c in
     [hex_digit (n div 4096), hex_digit (n div 256 mod 16),
      hex_digit (n div 16 mod 16), hex_digit (n mod 16)])"

definition uescape :: "16 word \<Rightarrow> jsstring" where
  "uescape c = 0x5C # 0x75 # hex4 c"

text \<open>
  \<^verbatim>\<open>QuoteJSONString\<close>: the two-character escapes, \<^verbatim>\<open>\uXXXX\<close> for the other control
  characters and for a surrogate that is not part of a pair, every other code unit as it
  is.
\<close>

definition quote_unit :: "16 word \<Rightarrow> jsstring" where
  "quote_unit c =
     (if c = 0x08 then [0x5C, 0x62]
      else if c = 0x09 then [0x5C, 0x74]
      else if c = 0x0A then [0x5C, 0x6E]
      else if c = 0x0C then [0x5C, 0x66]
      else if c = 0x0D then [0x5C, 0x72]
      else if c = 0x22 then [0x5C, 0x22]
      else if c = 0x5C then [0x5C, 0x5C]
      else if c < 0x20 \<or> is_high c \<or> is_low c then uescape c
      else [c])"

fun quote_body :: "jsstring \<Rightarrow> jsstring" where
  "quote_body [] = []"
| "quote_body [c] = quote_unit c"
| "quote_body (c # d # r) =
     (if is_high c \<and> is_low d then c # d # quote_body r
      else quote_unit c @ quote_body (d # r))"

definition quote :: "jsstring \<Rightarrow> jsstring" where
  "quote s = 0x22 # quote_body s @ [0x22]"

fun digits :: "nat \<Rightarrow> jsstring" where
  "digits n = (if n < 10 then [0x30 + of_nat n]
               else digits (n div 10) @ [0x30 + of_nat (n mod 10)])"

declare digits.simps [simp del]

definition num_str :: "int \<Rightarrow> jsstring" where
  "num_str i = (if i < 0 then 0x2D # digits (nat (- i)) else digits (nat i))"

text \<open>
  \<open>throws v\<close>: \<^verbatim>\<open>JSON.stringify\<close> raises a TypeError on \<open>v\<close>, which it does when
  it meets a BigInt anywhere in the value.
\<close>

fun throws :: "jsval \<Rightarrow> bool"
  and throws_list :: "jsval list \<Rightarrow> bool"
  and throws_props :: "(jsstring \<times> jsval) list \<Rightarrow> bool" where
  "throws (JBigInt n) = True"
| "throws (JArr vs) = throws_list vs"
| "throws (JObj ps) = throws_props ps"
| "throws v = False"
| "throws_list [] = False"
| "throws_list (v # vs) = (throws v \<or> throws_list vs)"
| "throws_props [] = False"
| "throws_props (p # ps) = (throws (snd p) \<or> throws_props ps)"

text \<open>
  The text of a value. An \<^verbatim>\<open>undefined\<close> element of an array is written
  \<^verbatim>\<open>null\<close>, a property whose value is \<^verbatim>\<open>undefined\<close> is left out.
\<close>

function (sequential) str :: "jsval \<Rightarrow> jsstring"
  and str_elems :: "jsval list \<Rightarrow> jsstring"
  and str_props :: "(jsstring \<times> jsval) list \<Rightarrow> jsstring" where
  "str JUndefined = ascii ''null''"
| "str JNull = ascii ''null''"
| "str (JBool b) = (if b then ascii ''true'' else ascii ''false'')"
| "str (JNum i) = num_str i"
| "str (JBigInt i) = []"
| "str (JStr s) = quote s"
| "str (JArr vs) = 0x5B # str_elems vs @ [0x5D]"
| "str (JObj ps) = 0x7B # str_props (filter (\<lambda>p. snd p \<noteq> JUndefined) ps) @ [0x7D]"
| "str_elems [] = []"
| "str_elems [v] = str v"
| "str_elems (v # w # vs) = str v @ 0x2C # str_elems (w # vs)"
| "str_props [] = []"
| "str_props [p] = quote (fst p) @ 0x3A # str (snd p)"
| "str_props (p # q # ps) = quote (fst p) @ 0x3A # str (snd p) @ 0x2C # str_props (q # ps)"
  by pat_completeness auto

termination
proof (relation "measure (case_sum size (case_sum (size_list size) (size_list (\<lambda>p. size (snd p)))))",
    goal_cases)
  case (3 ps)
  have "size_list (\<lambda>p. size (snd p)) (filter (\<lambda>p. snd p \<noteq> JUndefined) ps)
      \<le> size_list (\<lambda>p. size (snd p)) ps"
    by (induction ps) auto
  also have "size_list (\<lambda>p. size (snd p)) ps \<le> size_list (size_prod (\<lambda>x. 0) size) ps"
    by (induction ps) (auto simp: size_prod_simp)
  finally show ?case by simp
qed auto

text \<open>
  \<^verbatim>\<open>JSON.stringify(v)\<close> throws, returns \<^verbatim>\<open>undefined\<close> (for \<^verbatim>\<open>undefined\<close> itself) or
  returns the text.
\<close>

definition JSON_stringify :: "jsval \<Rightarrow> exn + jsval" where
  "JSON_stringify v =
     (if throws v then Inl TypeError
      else if v = JUndefined then Inr JUndefined
      else Inr (JStr (str v)))"

text \<open>
  The JSON-serializable values: no \<^verbatim>\<open>undefined\<close> and no BigInt anywhere, and no key
  twice in an object.
\<close>

fun json_value :: "jsval \<Rightarrow> bool"
  and json_values :: "jsval list \<Rightarrow> bool"
  and json_props :: "(jsstring \<times> jsval) list \<Rightarrow> bool" where
  "json_value JUndefined = False"
| "json_value JNull = True"
| "json_value (JBool b) = True"
| "json_value (JNum i) = True"
| "json_value (JBigInt i) = False"
| "json_value (JStr s) = True"
| "json_value (JArr vs) = json_values vs"
| "json_value (JObj ps) = (json_props ps \<and> distinct (map fst ps))"
| "json_values [] = True"
| "json_values (v # vs) = (json_value v \<and> json_values vs)"
| "json_props [] = True"
| "json_props (p # ps) = (json_value (snd p) \<and> json_props ps)"

subsection \<open>\<^verbatim>\<open>JSON.parse\<close>\<close>

text \<open>
  A recursive-descent reader of the JSON grammar. The number grammar is cut down to the
  integer literals of the fragment: a literal with a fraction or an exponent is not read.
  A key that occurs twice in an object keeps its first place and takes the last value.
\<close>

definition is_ws :: "16 word \<Rightarrow> bool" where
  "is_ws c = (c = 0x20 \<or> c = 0x09 \<or> c = 0x0A \<or> c = 0x0D)"

definition skip_ws :: "jsstring \<Rightarrow> jsstring" where
  "skip_ws s = dropWhile is_ws s"

definition is_digit :: "16 word \<Rightarrow> bool" where
  "is_digit c = (0x30 \<le> c \<and> c \<le> 0x39)"

definition hex_value :: "16 word \<Rightarrow> nat option" where
  "hex_value c =
     (if 0x30 \<le> c \<and> c \<le> 0x39 then Some (unat c - 48)
      else if 0x61 \<le> c \<and> c \<le> 0x66 then Some (unat c - 87)
      else if 0x41 \<le> c \<and> c \<le> 0x46 then Some (unat c - 55)
      else None)"

definition hex4_value :: "16 word \<Rightarrow> 16 word \<Rightarrow> 16 word \<Rightarrow> 16 word \<Rightarrow> 16 word option" where
  "hex4_value a b c d =
     (case (hex_value a, hex_value b, hex_value c, hex_value d) of
        (Some x, Some y, Some z, Some w) \<Rightarrow> Some (of_nat (((x * 16 + y) * 16 + z) * 16 + w))
      | _ \<Rightarrow> None)"

definition escape_char :: "16 word \<Rightarrow> 16 word option" where
  "escape_char e =
     (if e = 0x22 then Some 0x22
      else if e = 0x5C then Some 0x5C
      else if e = 0x2F then Some 0x2F
      else if e = 0x62 then Some 0x08
      else if e = 0x66 then Some 0x0C
      else if e = 0x6E then Some 0x0A
      else if e = 0x72 then Some 0x0D
      else if e = 0x74 then Some 0x09
      else None)"

definition cons_char :: "16 word \<Rightarrow> (jsstring \<times> jsstring) option \<Rightarrow> (jsstring \<times> jsstring) option" where
  "cons_char c r = (case r of None \<Rightarrow> None | Some (s, rest) \<Rightarrow> Some (c # s, rest))"

text \<open>The characters of a string literal after its opening quote, up to the closing one.\<close>

fun parse_chars :: "jsstring \<Rightarrow> (jsstring \<times> jsstring) option" where
  "parse_chars [] = None"
| "parse_chars (c # r) =
     (if c = 0x22 then Some ([], r)
      else if c = 0x5C then
        (case r of
           [] \<Rightarrow> None
         | e # r1 \<Rightarrow>
             if e = 0x75 then
               (case r1 of
                  h1 # h2 # h3 # h4 # r2 \<Rightarrow>
                    (case hex4_value h1 h2 h3 h4 of
                       None \<Rightarrow> None
                     | Some u \<Rightarrow> cons_char u (parse_chars r2))
                | _ \<Rightarrow> None)
             else
               (case escape_char e of
                  None \<Rightarrow> None
                | Some u \<Rightarrow> cons_char u (parse_chars r1)))
      else if c < 0x20 then None
      else cons_char c (parse_chars r))"

definition digits_value :: "jsstring \<Rightarrow> nat" where
  "digits_value ds = foldl (\<lambda>a d. 10 * a + (unat d - 48)) 0 ds"

definition parse_nat :: "jsstring \<Rightarrow> (nat \<times> jsstring) option" where
  "parse_nat s =
     (let ds = takeWhile is_digit s; rest = dropWhile is_digit s in
      if ds = [] then None
      else if hd ds = 0x30 \<and> length ds > 1 then None
      else if rest \<noteq> [] \<and> (hd rest = 0x2E \<or> hd rest = 0x65 \<or> hd rest = 0x45) then None
      else Some (digits_value ds, rest))"

definition parse_number :: "jsstring \<Rightarrow> (jsval \<times> jsstring) option" where
  "parse_number s =
     (case s of
        [] \<Rightarrow> None
      | c # r \<Rightarrow>
          if c = 0x2D then
            (case parse_nat r of None \<Rightarrow> None | Some (n, rest) \<Rightarrow> Some (JNum (- int n), rest))
          else
            (case parse_nat s of None \<Rightarrow> None | Some (n, rest) \<Rightarrow> Some (JNum (int n), rest)))"

definition starts_with :: "jsstring \<Rightarrow> jsstring \<Rightarrow> bool" where
  "starts_with s p = (take (length p) s = p)"

definition parse_literal :: "jsstring \<Rightarrow> (jsval \<times> jsstring) option" where
  "parse_literal s =
     (if starts_with s (ascii ''null'') then Some (JNull, drop 4 s)
      else if starts_with s (ascii ''true'') then Some (JBool True, drop 4 s)
      else if starts_with s (ascii ''false'') then Some (JBool False, drop 5 s)
      else parse_number s)"

text \<open>
  \<^verbatim>\<open>CreateDataProperty\<close> on the property list: an existing key keeps its place and
  takes the new value, a new key goes to the end.
\<close>

fun put_prop :: "jsstring \<Rightarrow> jsval \<Rightarrow> (jsstring \<times> jsval) list \<Rightarrow> (jsstring \<times> jsval) list" where
  "put_prop k v [] = [(k, v)]"
| "put_prop k v (p # ps) = (if fst p = k then (k, v) # ps else p # put_prop k v ps)"

function parse_value :: "jsstring \<Rightarrow> (jsval \<times> jsstring) option"
  and parse_elems :: "jsval list \<Rightarrow> jsstring \<Rightarrow> (jsval \<times> jsstring) option"
  and parse_props :: "(jsstring \<times> jsval) list \<Rightarrow> jsstring \<Rightarrow> (jsval \<times> jsstring) option" where
  "parse_value s =
     (case skip_ws s of
        [] \<Rightarrow> None
      | c # r \<Rightarrow>
          if c = 0x22 then
            (case parse_chars r of None \<Rightarrow> None | Some (t, rest) \<Rightarrow> Some (JStr t, rest))
          else if c = 0x5B then
            (case skip_ws r of
               [] \<Rightarrow> None
             | d # r1 \<Rightarrow> if d = 0x5D then Some (JArr [], r1) else parse_elems [] (d # r1))
          else if c = 0x7B then
            (case skip_ws r of
               [] \<Rightarrow> None
             | d # r1 \<Rightarrow> if d = 0x7D then Some (JObj [], r1) else parse_props [] (d # r1))
          else parse_literal (c # r))"
| "parse_elems acc s =
     (case parse_value s of
        None \<Rightarrow> None
      | Some (v, r) \<Rightarrow>
          (case skip_ws r of
             [] \<Rightarrow> None
           | c # r1 \<Rightarrow>
               if c = 0x5D then Some (JArr (acc @ [v]), r1)
               else if c = 0x2C \<and> length r1 < length s then parse_elems (acc @ [v]) r1
               else None))"
| "parse_props acc s =
     (case skip_ws s of
        [] \<Rightarrow> None
      | q # r \<Rightarrow>
          if q \<noteq> 0x22 then None
          else
            (case parse_chars r of
               None \<Rightarrow> None
             | Some (k, r1) \<Rightarrow>
                 (case skip_ws r1 of
                    [] \<Rightarrow> None
                  | c # r2 \<Rightarrow>
                      if c = 0x3A \<and> length r2 < length s then
                        (case parse_value r2 of
                           None \<Rightarrow> None
                         | Some (v, r3) \<Rightarrow>
                             (case skip_ws r3 of
                                [] \<Rightarrow> None
                              | d # r4 \<Rightarrow>
                                  if d = 0x7D then Some (JObj (put_prop k v acc), r4)
                                  else if d = 0x2C \<and> length r4 < length s
                                  then parse_props (put_prop k v acc) r4
                                  else None))
                      else None)))"
  by pat_completeness auto

termination
proof (relation "measure (\<lambda>x. case x of
          Inl s \<Rightarrow> 2 * length s
        | Inr (Inl (acc, s)) \<Rightarrow> 2 * length s + 1
        | Inr (Inr (acc, s)) \<Rightarrow> 2 * length s + 1)", goal_cases)
  case (2 s c r d r1)
  have "length (skip_ws r) \<le> length r" and "length (skip_ws s) \<le> length s"
    by (simp_all add: skip_ws_def length_dropWhile_le)
  with 2 show ?case by simp
next
  case (3 s c r d r1)
  have "length (skip_ws r) \<le> length r" and "length (skip_ws s) \<le> length s"
    by (simp_all add: skip_ws_def length_dropWhile_le)
  with 3 show ?case by simp
qed auto

declare parse_value.simps [simp del] parse_elems.simps [simp del] parse_props.simps [simp del]

text \<open>\<^verbatim>\<open>JSON.parse\<close>: one value, with nothing but white space after it.\<close>

definition JSON_parse :: "jsstring \<Rightarrow> exn + jsval" where
  "JSON_parse s =
     (case parse_value s of
        None \<Rightarrow> Inl SyntaxError
      | Some (v, rest) \<Rightarrow> if skip_ws rest = [] then Inr v else Inl SyntaxError)"

subsection \<open>Properties, truthiness and comparison\<close>

definition get_prop :: "jsval \<Rightarrow> jsstring \<Rightarrow> jsval" where
  "get_prop item k =
     (case item of
        JObj ps \<Rightarrow> (case map_of ps k of None \<Rightarrow> JUndefined | Some v \<Rightarrow> v)
      | _ \<Rightarrow> JUndefined)"

definition set_prop :: "jsval \<Rightarrow> jsstring \<Rightarrow> jsval \<Rightarrow> jsval" where
  "set_prop item k v = (case item of JObj ps \<Rightarrow> JObj (put_prop k v ps) | _ \<Rightarrow> item)"

text \<open>\<^verbatim>\<open>k in item\<close>, which the source evaluates on objects only.\<close>

definition in_obj :: "jsstring \<Rightarrow> jsval \<Rightarrow> bool" where
  "in_obj k item = (case item of JObj ps \<Rightarrow> k \<in> fst ` set ps | _ \<Rightarrow> False)"

text \<open>
  \<^verbatim>\<open>ToNumber\<close>, with \<open>None\<close> for \<^verbatim>\<open>NaN\<close>. Of the host's string-to-number grammar the
  fragment has the integer literals: optional white space, an optional sign, decimal
  digits. An array is converted through its text (its elements joined by commas), an
  object through the text \<^verbatim>\<open>[object Object]\<close>, which is no number. Outside the
  fragment are the other numeric strings (a fraction, an exponent, a radix prefix,
  \<^verbatim>\<open>Infinity\<close>) and the objects that have a property named \<^verbatim>\<open>toString\<close> of their
  own, which the host refuses to convert.
\<close>

definition is_str_ws :: "16 word \<Rightarrow> bool" where
  "is_str_ws c = (c \<in> {0x09, 0x0A, 0x0B, 0x0C, 0x0D, 0x20, 0xA0, 0x1680, 0x2028, 0x2029,
                       0x202F, 0x205F, 0x3000, 0xFEFF} \<or> (0x2000 \<le> c \<and> c \<le> 0x200A))"

definition string_to_number :: "jsstring \<Rightarrow> int option" where
  "string_to_number s =
     (let t = rev (dropWhile is_str_ws (rev (dropWhile is_str_ws s))) in
      if t = [] then Some 0
      else if hd t = 0x2D \<and> tl t \<noteq> [] \<and> list_all is_digit (tl t)
        then Some (- int (digits_value (tl t)))
      else if hd t = 0x2B \<and> tl t \<noteq> [] \<and> list_all is_digit (tl t)
        then Some (int (digits_value (tl t)))
      else if list_all is_digit t then Some (int (digits_value t))
      else None)"

fun to_text :: "jsval \<Rightarrow> jsstring"
  and join_texts :: "jsval list \<Rightarrow> jsstring" where
  "to_text JUndefined = ascii ''undefined''"
| "to_text JNull = ascii ''null''"
| "to_text (JBool b) = (if b then ascii ''true'' else ascii ''false'')"
| "to_text (JNum i) = num_str i"
| "to_text (JBigInt i) = num_str i"
| "to_text (JStr s) = s"
| "to_text (JArr vs) = join_texts vs"
| "to_text (JObj ps) = ascii ''[object Object]''"
| "join_texts [] = []"
| "join_texts [v] = (if v = JUndefined \<or> v = JNull then [] else to_text v)"
| "join_texts (v # w # vs) =
     (if v = JUndefined \<or> v = JNull then [] else to_text v) @ 0x2C # join_texts (w # vs)"

definition to_number :: "jsval \<Rightarrow> int option" where
  "to_number v =
     (case v of
        JUndefined \<Rightarrow> None
      | JNull \<Rightarrow> Some 0
      | JBool b \<Rightarrow> Some (if b then 1 else 0)
      | JNum i \<Rightarrow> Some i
      | JBigInt i \<Rightarrow> Some i
      | JStr s \<Rightarrow> string_to_number s
      | JArr vs \<Rightarrow> string_to_number (join_texts vs)
      | JObj ps \<Rightarrow> None)"

text \<open>\<^verbatim>\<open>n > v\<close> for a number \<open>n\<close>: false when \<open>v\<close> converts to \<^verbatim>\<open>NaN\<close>.\<close>

definition js_gt :: "int \<Rightarrow> jsval \<Rightarrow> bool" where
  "js_gt n v = (case to_number v of None \<Rightarrow> False | Some m \<Rightarrow> n > m)"

section \<open>The helpers\<close>

text \<open>
  Modelled from the spec: \<^verbatim>\<open>isObject\<close> of \<^verbatim>\<open>./helpers\<close>, which is not among the
  sources. The spec has the TTL form of a stored entry be "a wrapper object" that a read
  detects "by sentinel-field presence": \<open>isObject\<close> holds of the objects and of nothing
  else (not of \<^verbatim>\<open>null\<close>, an array or a primitive value).
\<close>

definition isObject :: "jsval \<Rightarrow> bool" where
  "isObject item = (case item of JObj ps \<Rightarrow> True | _ \<Rightarrow> False)"

text \<open>
  Modelled from the spec: \<^verbatim>\<open>NOOP\<close> of \<^verbatim>\<open>./helpers\<close>, which is not among the sources
  either. It stands in for a missing encrypter or decrypter. The spec is silent on it;
  by its name it does nothing and returns \<^verbatim>\<open>undefined\<close>, and no theorem below depends
  on what it returns.
\<close>

definition NOOP :: "jsval \<Rightarrow> int option \<Rightarrow> exn + jsval" where
  "NOOP v key = Inr JUndefined"

section \<open>\<^verbatim>\<open>src/ls.ts\<close>\<close>

subsection \<open>The sentinel and the obfuscator\<close>

definition APX :: jsstring where
  "APX = [0]"

definition ttl_key :: jsstring where
  "ttl_key = ascii ''ttl''"

text \<open>\<^verbatim>\<open>[...x]\<close>: the code points of a string, the elements of an array, a TypeError otherwise.\<close>

definition spread :: "jsval \<Rightarrow> exn + jsval list" where
  "spread x =
     (case x of
        JStr s \<Rightarrow> Inr (map JStr (code_points s))
      | JArr vs \<Rightarrow> Inr vs
      | _ \<Rightarrow> Inl TypeError)"

text \<open>
  \<^verbatim>\<open>x.charCodeAt(0)\<close>: the first code unit of a string, \<^verbatim>\<open>NaN\<close> (\<open>None\<close>) on the
  empty string, a TypeError on a value that has no such method.
\<close>

definition charCodeAt0 :: "jsval \<Rightarrow> exn + int option" where
  "charCodeAt0 x =
     (case x of
        JStr s \<Rightarrow> (case s of [] \<Rightarrow> Inr None | c # r \<Rightarrow> Inr (Some (uint c)))
      | _ \<Rightarrow> Inl TypeError)"

definition num_add :: "int option \<Rightarrow> int option \<Rightarrow> int option" where
  "num_add a b = (case (a, b) of (Some x, Some y) \<Rightarrow> Some (x + y) | _ \<Rightarrow> None)"

definition num_sub :: "int option \<Rightarrow> int option \<Rightarrow> int option" where
  "num_sub a b = (case (a, b) of (Some x, Some y) \<Rightarrow> Some (x - y) | _ \<Rightarrow> None)"

text \<open>\<^verbatim>\<open>String.fromCharCode(n)\<close>: \<open>n\<close> modulo \<open>2^16\<close>, and \<open>0\<close> for \<^verbatim>\<open>NaN\<close>.\<close>

definition fromCharCode :: "int option \<Rightarrow> jsstring" where
  "fromCharCode n = (case n of None \<Rightarrow> [0] | Some i \<Rightarrow> [word_of_int i])"

fun map_exn :: "('a \<Rightarrow> exn + 'b) \<Rightarrow> 'a list \<Rightarrow> exn + 'b list" where
  "map_exn f [] = Inr []"
| "map_exn f (x # xs) =
     (case f x of
        Inl e \<Rightarrow> Inl e
      | Inr y \<Rightarrow> (case map_exn f xs of Inl e \<Rightarrow> Inl e | Inr ys \<Rightarrow> Inr (y # ys)))"

text \<open>
  \<open>obfus\<close> (lines 37 to 42). The secret is the \<open>key\<close>; \<open>None\<close> is a secret that is
  \<^verbatim>\<open>undefined\<close>, which makes every sum \<^verbatim>\<open>NaN\<close>.
\<close>

definition obfus :: "jsval \<Rightarrow> int option \<Rightarrow> bool \<Rightarrow> exn + jsval" where
  "obfus v key encrypt =
     (if encrypt then
        (case JSON_stringify v of
           Inl e \<Rightarrow> Inl e
         | Inr t \<Rightarrow>
             (case spread t of
                Inl e \<Rightarrow> Inl e
              | Inr xs \<Rightarrow>
                  (case map_exn (\<lambda>x. case charCodeAt0 x of
                                        Inl e \<Rightarrow> Inl e
                                      | Inr c \<Rightarrow> Inr (fromCharCode (num_add c key))) xs of
                     Inl e \<Rightarrow> Inl e
                   | Inr cs \<Rightarrow> Inr (JStr (concat cs)))))
      else
        (case spread v of
           Inl e \<Rightarrow> Inl e
         | Inr xs \<Rightarrow>
             (case map_exn (\<lambda>x. case charCodeAt0 x of
                                   Inl e \<Rightarrow> Inl e
                                 | Inr c \<Rightarrow> Inr (fromCharCode (num_sub c key))) xs of
                Inl e \<Rightarrow> Inl e
              | Inr cs \<Rightarrow> JSON_parse (concat cs))))"

definition default_decrypter :: "jsval \<Rightarrow> int option \<Rightarrow> exn + jsval" where
  "default_decrypter v key = obfus v key False"

subsection \<open>The configuration\<close>

text \<open>
  A field that is \<open>None\<close> is absent (\<^verbatim>\<open>undefined\<close>). The \<open>ttl\<close> of the declared type is
  a number or \<^verbatim>\<open>null\<close>; the booleans are here because the merge rule is asked about
  \<^verbatim>\<open>ttl: false\<close>.
\<close>

datatype ttl_value = TtlNull | TtlBool bool | TtlNum int

datatype prefix_value = PrefixNull | PrefixStr jsstring

record LocalStorageConfig =
  ttl :: "ttl_value option"
  encrypt :: "bool option"
  decrypt :: "bool option"
  encrypter :: "(jsval \<Rightarrow> int option \<Rightarrow> exn + jsval) option"
  decrypter :: "(jsval \<Rightarrow> int option \<Rightarrow> exn + jsval) option"
  secret :: "int option"
  prefix :: "prefix_value option"

definition config :: LocalStorageConfig where
  "config = \<lparr>ttl = Some TtlNull, encrypt = Some False, decrypt = None,
     encrypter = Some (\<lambda>v key. obfus v key True), decrypter = Some default_decrypter,
     secret = Some 75, prefix = Some PrefixNull\<rparr>"

text \<open>The empty \<^verbatim>\<open>localConfig = {}\<close> that every operation takes by default.\<close>

definition no_config :: LocalStorageConfig where
  "no_config = \<lparr>ttl = None, encrypt = None, decrypt = None, encrypter = None,
     decrypter = None, secret = None, prefix = None\<rparr>"

definition truthy_bool :: "bool option \<Rightarrow> bool" where
  "truthy_bool b = (b = Some True)"

definition truthy_ttl :: "ttl_value option \<Rightarrow> bool" where
  "truthy_ttl t =
     (case t of
        None \<Rightarrow> False
      | Some TtlNull \<Rightarrow> False
      | Some (TtlBool b) \<Rightarrow> b
      | Some (TtlNum n) \<Rightarrow> n \<noteq> 0)"

definition truthy_prefix :: "prefix_value option \<Rightarrow> bool" where
  "truthy_prefix p =
     (case p of
        None \<Rightarrow> False
      | Some PrefixNull \<Rightarrow> False
      | Some (PrefixStr s) \<Rightarrow> s \<noteq> [])"

text \<open>\<^verbatim>\<open>a || b\<close>.\<close>

definition js_or :: "('a \<Rightarrow> bool) \<Rightarrow> 'a \<Rightarrow> 'a \<Rightarrow> 'a" where
  "js_or truthy a b = (if truthy a then a else b)"

text \<open>\<^verbatim>\<open>{...config, ...localConfig}\<close> on one field.\<close>

definition spread_field :: "'a option \<Rightarrow> 'a option \<Rightarrow> 'a option" where
  "spread_field g l = (case l of None \<Rightarrow> g | Some x \<Rightarrow> Some x)"

text \<open>
  \<^verbatim>\<open>localConfig.prefix === null ? null : localConfig.prefix || config.prefix\<close>
  (lines 65, 104, 150, 171 and 182).
\<close>

definition conf_prefix :: "LocalStorageConfig \<Rightarrow> LocalStorageConfig \<Rightarrow> prefix_value option" where
  "conf_prefix g l =
     (if prefix l = Some PrefixNull then Some PrefixNull
      else js_or truthy_prefix (prefix l) (prefix g))"

text \<open>\<open>_conf\<close> of \<open>set\<close> and \<open>get\<close> (lines 60 to 66 and 99 to 105).\<close>

definition conf_merge :: "LocalStorageConfig \<Rightarrow> LocalStorageConfig \<Rightarrow> LocalStorageConfig" where
  "conf_merge g l =
     \<lparr>ttl = (if ttl l = Some TtlNull then Some TtlNull else js_or truthy_ttl (ttl l) (ttl g)),
      encrypt = (if encrypt l = Some False then Some False
                 else js_or truthy_bool (encrypt l) (encrypt g)),
      decrypt = spread_field (decrypt g) (decrypt l),
      encrypter = spread_field (encrypter g) (encrypter l),
      decrypter = spread_field (decrypter g) (decrypter l),
      secret = spread_field (secret g) (secret l),
      prefix = conf_prefix g l\<rparr>"

text \<open>The string of a prefix, and the prefixed key (lines 84 to 87, 107 to 110, 172 to 175).\<close>

definition prefix_str :: "prefix_value option \<Rightarrow> jsstring" where
  "prefix_str p = (case p of Some (PrefixStr s) \<Rightarrow> s | _ \<Rightarrow> [])"

definition with_prefix :: "prefix_value option \<Rightarrow> jsstring \<Rightarrow> jsstring" where
  "with_prefix p key = (if truthy_prefix p then prefix_str p @ key else key)"

text \<open>
  \<^verbatim>\<open>_conf.ttl && !isNaN(_conf.ttl) && _conf.ttl > 0\<close> (line 69), and the number that
  \<^verbatim>\<open>_conf.ttl\<close> is in the product of line 70.
\<close>

definition ttl_number :: "ttl_value option \<Rightarrow> int option" where
  "ttl_number t =
     (case t of
        None \<Rightarrow> None
      | Some TtlNull \<Rightarrow> Some 0
      | Some (TtlBool b) \<Rightarrow> Some (if b then 1 else 0)
      | Some (TtlNum n) \<Rightarrow> Some n)"

definition conf_hasTTL :: "ttl_value option \<Rightarrow> bool" where
  "conf_hasTTL t =
     (truthy_ttl t \<and> ttl_number t \<noteq> None \<and> (case ttl_number t of None \<Rightarrow> False | Some n \<Rightarrow> n > 0))"

subsection \<open>The store and the state of the module\<close>

text \<open>
  \<open>hasLS\<close> is the private flag of line 11, \<open>None\<close> while it is \<^verbatim>\<open>undefined\<close>.
  \<open>available\<close> says that reading \<^verbatim>\<open>localStorage\<close> neither throws nor gives a falsy
  value. \<open>items\<close> are the keys and values of \<^verbatim>\<open>localStorage\<close> in the order of
  \<^verbatim>\<open>Object.keys\<close>, \<open>quota\<close> the number of code units it can hold. \<open>config\<close> is a
  mutable object of the module, so the state carries it as \<open>defaults\<close>.
\<close>

record world =
  hasLS :: "bool option"
  available :: bool
  items :: "(jsstring \<times> jsstring) list"
  quota :: nat
  defaults :: LocalStorageConfig

definition getItem :: "jsstring \<Rightarrow> world \<Rightarrow> jsstring option" where
  "getItem k w = map_of (items w) k"

definition removeItem :: "jsstring \<Rightarrow> world \<Rightarrow> world" where
  "removeItem k w = w\<lparr>items := filter (\<lambda>p. fst p \<noteq> k) (items w)\<rparr>"

fun put_item :: "jsstring \<Rightarrow> jsstring \<Rightarrow> (jsstring \<times> jsstring) list \<Rightarrow> (jsstring \<times> jsstring) list" where
  "put_item k v [] = [(k, v)]"
| "put_item k v (p # ps) = (if fst p = k then (k, v) # ps else p # put_item k v ps)"

definition store_size :: "(jsstring \<times> jsstring) list \<Rightarrow> nat" where
  "store_size ps = sum_list (map (\<lambda>p. length (fst p) + length (snd p)) ps)"

text \<open>\<^verbatim>\<open>setItem\<close> throws when the store would not hold the new value.\<close>

definition setItem :: "jsstring \<Rightarrow> jsstring \<Rightarrow> world \<Rightarrow> exn + world" where
  "setItem k v w =
     (let ps = put_item k v (items w) in
      if store_size ps > quota w then Inl QuotaExceededError else Inr (w\<lparr>items := ps\<rparr>))"

text \<open>The string that \<^verbatim>\<open>setItem\<close> makes of its second argument.\<close>

definition dom_string :: "jsval \<Rightarrow> jsstring" where
  "dom_string v = to_text v"

subsection \<open>\<open>flush\<close> and \<open>supportsLS\<close>\<close>

text \<open>The test of line 119 and line 163.\<close>

definition hasTTL :: "jsval \<Rightarrow> bool" where
  "hasTTL item = (isObject item \<and> in_obj APX item)"

text \<open>The callback of line 151 on one key.\<close>

definition flush_key :: "int \<Rightarrow> bool \<Rightarrow> prefix_value option \<Rightarrow> world \<Rightarrow> jsstring \<Rightarrow> world" where
  "flush_key now force p w key =
     (if truthy_prefix p \<and> \<not> starts_with key (prefix_str p) then w
      else
        (case getItem key w of
           None \<Rightarrow> w
         | Some s \<Rightarrow>
             if s = [] then w
             else
               (case JSON_parse s of
                  Inl e \<Rightarrow> w
                | Inr item \<Rightarrow>
                    if hasTTL item \<and> (js_gt now (get_prop item ttl_key) \<or> force)
                    then removeItem key w
                    else w)))"

text \<open>Lines 150 to 166: \<open>flush\<close> after its guard.\<close>

definition flush_sweep :: "int \<Rightarrow> bool \<Rightarrow> LocalStorageConfig \<Rightarrow> world \<Rightarrow> world" where
  "flush_sweep now force localConfig w =
     foldl (flush_key now force (conf_prefix (defaults w) localConfig)) w (map fst (items w))"

text \<open>
  \<open>supportsLS\<close> (lines 13 to 31). It and \<open>flush\<close> call each other: the \<open>flush()\<close> of
  line 28 finds \<open>hasLS\<close> set, so its own guard returns the flag at once, and it sweeps
  when the flag is true. \<open>now\<close> is what \<^verbatim>\<open>Date.now()\<close> returns during the call.
\<close>

definition supportsLS :: "int \<Rightarrow> world \<Rightarrow> bool \<times> world" where
  "supportsLS now w =
     (case hasLS w of
        Some b \<Rightarrow> (b, w)
      | None \<Rightarrow>
          (let w1 = w\<lparr>hasLS := Some (available w)\<rparr> in
           (available w, if available w then flush_sweep now False no_config w1 else w1)))"

datatype result = ReturnsFalse | ReturnsVoid

definition flush :: "int \<Rightarrow> bool \<Rightarrow> LocalStorageConfig \<Rightarrow> world \<Rightarrow> result \<times> world" where
  "flush now force localConfig w0 =
     (let (ok, w) = supportsLS now w0 in
      if \<not> ok then (ReturnsFalse, w)
      else (ReturnsVoid, flush_sweep now force localConfig w))"

subsection \<open>\<open>set\<close>\<close>

definition or_NOOP :: "(jsval \<Rightarrow> int option \<Rightarrow> exn + jsval) option \<Rightarrow> jsval \<Rightarrow> int option \<Rightarrow> exn + jsval" where
  "or_NOOP f = (case f of None \<Rightarrow> NOOP | Some g \<Rightarrow> g)"

text \<open>Lines 69 and 70.\<close>

definition wrap_ttl :: "int \<Rightarrow> LocalStorageConfig \<Rightarrow> jsval \<Rightarrow> jsval" where
  "wrap_ttl now conf v =
     (if conf_hasTTL (ttl conf) then
        (case ttl_number (ttl conf) of
           None \<Rightarrow> v
         | Some n \<Rightarrow> JObj [(APX, v), (ttl_key, JNum (now + n * 1000))])
      else v)"

text \<open>Lines 72 to 82.\<close>

definition encrypt_val :: "LocalStorageConfig \<Rightarrow> jsval \<Rightarrow> exn + jsval" where
  "encrypt_val conf val =
     (if truthy_bool (encrypt conf) then
        (if conf_hasTTL (ttl conf) then
           (case or_NOOP (encrypter conf) (get_prop val APX) (secret conf) of
              Inl e \<Rightarrow> Inl e
            | Inr c \<Rightarrow> Inr (set_prop val APX c))
         else or_NOOP (encrypter conf) val (secret conf))
      else Inr val)"

text \<open>The \<^verbatim>\<open>try\<close> block of \<open>set\<close> (lines 69 to 89): an exception or the written store.\<close>

definition set_try :: "int \<Rightarrow> jsstring \<Rightarrow> jsval \<Rightarrow> LocalStorageConfig \<Rightarrow> world \<Rightarrow> exn + world" where
  "set_try now key v conf w =
     (case encrypt_val conf (wrap_ttl now conf v) of
        Inl e \<Rightarrow> Inl e
      | Inr val \<Rightarrow>
          (case JSON_stringify val of
             Inl e \<Rightarrow> Inl e
           | Inr t \<Rightarrow> setItem (with_prefix (prefix conf) key) (dom_string t) w))"

definition set_ls :: "int \<Rightarrow> jsstring \<Rightarrow> jsval \<Rightarrow> LocalStorageConfig \<Rightarrow> world \<Rightarrow> result \<times> world" where
  "set_ls now key v localConfig w0 =
     (let (ok, w) = supportsLS now w0 in
      if \<not> ok then (ReturnsFalse, w)
      else
        (case set_try now key v (conf_merge (defaults w) localConfig) w of
           Inl e \<Rightarrow> (ReturnsFalse, w)
         | Inr w' \<Rightarrow> (ReturnsVoid, w')))"

subsection \<open>\<open>get\<close>\<close>

text \<open>
  Lines 121 to 132: the decrypter runs inside \<^verbatim>\<open>try\<close>, and an exception leaves the
  item as it was.
\<close>

definition decrypt_item :: "LocalStorageConfig \<Rightarrow> jsval \<Rightarrow> jsval" where
  "decrypt_item conf item =
     (if truthy_bool (decrypt conf) \<or> truthy_bool (encrypt conf) then
        (if hasTTL item then
           (case or_NOOP (decrypter conf) (get_prop item APX) (secret conf) of
              Inl e \<Rightarrow> item
            | Inr d \<Rightarrow> set_prop item APX d)
         else
           (case or_NOOP (decrypter conf) item (secret conf) of
              Inl e \<Rightarrow> item
            | Inr d \<Rightarrow> d))
      else item)"

text \<open>
  \<open>get\<close> returns a value or lets the SyntaxError of line 118 through, which no
  \<^verbatim>\<open>try\<close> encloses.
\<close>

definition get :: "int \<Rightarrow> jsstring \<Rightarrow> LocalStorageConfig \<Rightarrow> world \<Rightarrow> (exn + jsval) \<times> world" where
  "get now key0 localConfig w0 =
     (let (ok, w) = supportsLS now w0 in
      if \<not> ok then (Inr JNull, w)
      else
        (let conf = conf_merge (defaults w) localConfig;
             key = with_prefix (prefix conf) key0 in
         case getItem key w of
           None \<Rightarrow> (Inr JNull, w)
         | Some s \<Rightarrow>
             if s = [] then (Inr JNull, w)
             else
               (case JSON_parse s of
                  Inl e \<Rightarrow> (Inl e, w)
                | Inr item0 \<Rightarrow>
                    (let item = decrypt_item conf item0 in
                     if \<not> hasTTL item0 then (Inr item, w)
                     else if js_gt now (get_prop item ttl_key)
                       then (Inr JNull, removeItem key w)
                     else (Inr (get_prop item APX), w)))))"

subsection \<open>\<open>remove\<close> and \<open>clear\<close>\<close>

definition remove :: "int \<Rightarrow> jsstring \<Rightarrow> LocalStorageConfig \<Rightarrow> world \<Rightarrow> result \<times> world" where
  "remove now key localConfig w0 =
     (let (ok, w) = supportsLS now w0 in
      if \<not> ok then (ReturnsFalse, w)
      else (ReturnsVoid, removeItem (with_prefix (conf_prefix (defaults w) localConfig) key) w))"

definition clear :: "int \<Rightarrow> LocalStorageConfig \<Rightarrow> world \<Rightarrow> result \<times> world" where
  "clear now localConfig w0 =
     (let (ok, w) = supportsLS now w0 in
      if \<not> ok then (ReturnsFalse, w)
      else
        (let p = conf_prefix (defaults w) localConfig in
         if truthy_prefix p then
           (ReturnsVoid,
            foldl (\<lambda>w key. if starts_with key (prefix_str p) then removeItem key w else w)
              w (map fst (items w)))
         else (ReturnsVoid, w\<lparr>items := []\<rparr>)))"

section \<open>\<^verbatim>\<open>JSON.parse\<close> reads what \<^verbatim>\<open>JSON.stringify\<close> writes\<close>

subsection \<open>String literals\<close>

lemma hex_value_hex_digit: "n < 16 \<Longrightarrow> hex_value (hex_digit n) = Some n"
proof -
  assume "n < 16"
  then have "n \<in> set [0..<16]" by simp
  moreover have "\<forall>n \<in> set [0..<16]. hex_value (hex_digit n) = Some n"
    by (simp add: upt_rec hex_value_def hex_digit_def)
  ultimately show ?thesis by blast
qed

lemma hex_split:
  fixes n :: nat
  shows "((n div 4096 * 16 + n div 256 mod 16) * 16 + n div 16 mod 16) * 16 + n mod 16 = n"
proof -
  define a where "a = n div 16"
  define b where "b = a div 16"
  define c where "c = b div 16"
  have d1: "n div 256 = b" by (simp add: a_def b_def div_mult2_eq)
  have d2: "n div 4096 = c" by (simp add: a_def b_def c_def div_mult2_eq)
  have e1: "c * 16 + b mod 16 = b" by (simp add: c_def)
  have e2: "b * 16 + a mod 16 = a" by (simp add: b_def)
  have e3: "a * 16 + n mod 16 = n" by (simp add: a_def)
  show ?thesis
    unfolding d1 d2 a_def [symmetric] e1 e2 e3 ..
qed

lemma hex4_value_hex4: "hex4 c = [h1, h2, h3, h4] \<Longrightarrow> hex4_value h1 h2 h3 h4 = Some c"
proof -
  assume a: "hex4 c = [h1, h2, h3, h4]"
  define n where "n = unat c"
  have n: "n < 65536" using unsigned_less [of c, where 'a = nat] by (simp add: n_def)
  have h: "h1 = hex_digit (n div 4096)" "h2 = hex_digit (n div 256 mod 16)"
    "h3 = hex_digit (n div 16 mod 16)" "h4 = hex_digit (n mod 16)"
    using a by (simp_all add: hex4_def n_def Let_def)
  have "n div 4096 < 16" using n by simp
  then have v: "hex_value h1 = Some (n div 4096)" "hex_value h2 = Some (n div 256 mod 16)"
    "hex_value h3 = Some (n div 16 mod 16)" "hex_value h4 = Some (n mod 16)"
    by (simp_all add: h hex_value_hex_digit)
  have "(of_nat (((n div 4096 * 16 + n div 256 mod 16) * 16 + n div 16 mod 16) * 16 + n mod 16)
          :: 16 word) = c"
    unfolding hex_split by (simp add: n_def)
  then show ?thesis
    by (simp only: hex4_value_def v prod.case option.case)
qed

lemma parse_chars_uescape:
  "parse_chars (uescape c @ r) = cons_char c (parse_chars r)"
proof -
  obtain h1 h2 h3 h4 where h: "hex4 c = [h1, h2, h3, h4]"
    by (simp add: hex4_def Let_def)
  show ?thesis
    by (simp add: uescape_def h hex4_value_hex4 [OF h])
qed

lemma parse_chars_quote_unit:
  "parse_chars (quote_unit c @ r) = cons_char c (parse_chars r)"
  by (auto simp: quote_unit_def parse_chars_uescape escape_char_def is_high_def is_low_def
      word_le_nat_alt word_less_nat_alt)

lemma parse_chars_pair:
  "is_high c \<Longrightarrow> is_low d \<Longrightarrow> parse_chars (c # d # r) = cons_char c (cons_char d (parse_chars r))"
  by (auto simp: is_high_def is_low_def word_le_nat_alt word_less_nat_alt)

lemma parse_chars_quote_body:
  "parse_chars (quote_body s @ 0x22 # rest) = Some (s, rest)"
proof (induction s rule: quote_body.induct)
  case 1
  then show ?case by simp
next
  case (2 c)
  then show ?case by (simp add: parse_chars_quote_unit cons_char_def)
next
  case (3 c d r)
  then show ?case
    by (simp add: parse_chars_quote_unit parse_chars_pair cons_char_def del: parse_chars.simps)
qed

subsection \<open>Number literals\<close>

lemma digit_char:
  "m < 10 \<Longrightarrow> is_digit (0x30 + of_nat m) \<and> unat (0x30 + of_nat m :: 16 word) - 48 = m
     \<and> ((0x30 + of_nat m :: 16 word) = 0x30 \<longrightarrow> m = 0)"
proof -
  assume "m < 10"
  then have "m \<in> set [0..<10]" by simp
  moreover have "\<forall>m \<in> set [0..<10]. is_digit (0x30 + of_nat m)
      \<and> unat (0x30 + of_nat m :: 16 word) - 48 = m \<and> ((0x30 + of_nat m :: 16 word) = 0x30 \<longrightarrow> m = 0)"
    by (simp add: upt_rec is_digit_def)
  ultimately show ?thesis by blast
qed

lemma digits_nonempty: "digits n \<noteq> []"
  by (subst digits.simps) simp

lemma digits_all: "\<forall>d \<in> set (digits n). is_digit d"
proof (induction n rule: digits.induct)
  case (1 n)
  show ?case
  proof (cases "n < 10")
    case True
    then show ?thesis by (subst digits.simps) (simp add: digit_char)
  next
    case False
    then show ?thesis using 1 by (subst digits.simps) (simp add: digit_char)
  qed
qed

lemma digits_value_snoc: "digits_value (ds @ [d]) = 10 * digits_value ds + (unat d - 48)"
  by (simp add: digits_value_def)

lemma digits_value_digits: "digits_value (digits n) = n"
proof (induction n rule: digits.induct)
  case (1 n)
  show ?case
  proof (cases "n < 10")
    case True
    then show ?thesis by (subst digits.simps) (simp add: digit_char digits_value_def)
  next
    case False
    then show ?thesis using 1
      by (subst digits.simps) (simp add: digit_char digits_value_snoc)
  qed
qed

lemma digits_leading_zero: "hd (digits n) = 0x30 \<Longrightarrow> n = 0"
proof (induction n rule: digits.induct)
  case (1 n)
  show ?case
  proof (cases "n < 10")
    case True
    then show ?thesis using 1(2) digit_char [of n] by (subst (asm) digits.simps) simp
  next
    case False
    then have "hd (digits (n div 10)) = 0x30"
      using 1(2) by (subst (asm) digits.simps) (simp add: digits_nonempty)
    with 1(1) False have "n div 10 = 0" by simp
    with False show ?thesis by simp
  qed
qed

definition num_rest :: "jsstring \<Rightarrow> bool" where
  "num_rest rest = (rest = [] \<or> hd rest = 0x2C \<or> hd rest = 0x5D \<or> hd rest = 0x7D)"

lemma num_rest_not_digit:
  "num_rest rest \<Longrightarrow> rest \<noteq> [] \<Longrightarrow> \<not> is_digit (hd rest) \<and> hd rest \<noteq> 0x2E \<and> hd rest \<noteq> 0x65 \<and> hd rest \<noteq> 0x45"
  by (auto simp: num_rest_def is_digit_def)

lemma parse_nat_digits:
  assumes "num_rest rest"
  shows "parse_nat (digits n @ rest) = Some (n, rest)"
proof -
  have tw: "takeWhile is_digit (digits n @ rest) = digits n"
    using digits_all [of n] num_rest_not_digit [OF assms]
    by (cases rest) (simp_all add: takeWhile_append2)
  have dw: "dropWhile is_digit (digits n @ rest) = rest"
    using digits_all [of n] num_rest_not_digit [OF assms]
    by (cases rest) (simp_all add: dropWhile_append2)
  have lz: "\<not> (hd (digits n) = 0x30 \<and> length (digits n) > 1)"
  proof
    assume a: "hd (digits n) = 0x30 \<and> length (digits n) > 1"
    then have "n = 0" by (simp add: digits_leading_zero)
    then have "digits n = [0x30]" by (subst digits.simps) simp
    with a show False by simp
  qed
  show ?thesis
    using lz num_rest_not_digit [OF assms]
    by (auto simp: parse_nat_def tw dw Let_def digits_nonempty digits_value_digits)
qed

lemma digits_hd: "is_digit (hd (digits n))"
  using digits_all [of n] digits_nonempty [of n] by (cases "digits n") simp_all

lemma parse_number_num_str:
  assumes "num_rest rest"
  shows "parse_number (num_str i @ rest) = Some (JNum i, rest)"
proof (cases "i < 0")
  case True
  then show ?thesis
    by (simp add: parse_number_def num_str_def parse_nat_digits [OF assms])
next
  case False
  obtain c r where cr: "digits (nat i) = c # r"
    using digits_nonempty [of "nat i"] by (cases "digits (nat i)") auto
  have "is_digit c" using digits_hd [of "nat i"] by (simp add: cr)
  then have "c \<noteq> 0x2D" by (auto simp: is_digit_def)
  with False show ?thesis
    using parse_nat_digits [OF assms, of "nat i"]
    by (simp add: parse_number_def num_str_def cr)
qed

lemma num_str_first:
  "\<exists>c r. num_str i = c # r \<and> (is_digit c \<or> c = 0x2D)"
proof (cases "i < 0")
  case True
  then show ?thesis by (simp add: num_str_def)
next
  case False
  obtain c r where cr: "digits (nat i) = c # r"
    using digits_nonempty [of "nat i"] by (cases "digits (nat i)") auto
  have "is_digit c" using digits_hd [of "nat i"] by (simp add: cr)
  with False cr show ?thesis by (simp add: num_str_def)
qed

lemma parse_literal_num_str:
  assumes "num_rest rest"
  shows "parse_literal (num_str i @ rest) = Some (JNum i, rest)"
proof -
  obtain c r where cr: "num_str i = c # r" "is_digit c \<or> c = 0x2D"
    using num_str_first by blast
  then have "c \<noteq> 0x6E \<and> c \<noteq> 0x74 \<and> c \<noteq> 0x66" by (auto simp: is_digit_def)
  then have "parse_literal (c # r @ rest) = parse_number (c # r @ rest)"
    by (simp add: parse_literal_def starts_with_def ascii_def)
  then show ?thesis
    using parse_number_num_str [OF assms, of i] by (simp add: cr)
qed

subsection \<open>Values\<close>

definition first_ok :: "jsstring \<Rightarrow> bool" where
  "first_ok s = (s \<noteq> [] \<and> \<not> is_ws (hd s) \<and> hd s \<noteq> 0x5D \<and> hd s \<noteq> 0x7D)"

lemma first_ok_Cons: "first_ok (c # r) = (\<not> is_ws c \<and> c \<noteq> 0x5D \<and> c \<noteq> 0x7D)"
  by (simp add: first_ok_def)

lemma first_ok_append: "first_ok s \<Longrightarrow> first_ok (s @ t)"
  by (cases s) (simp_all add: first_ok_def)

lemma first_ok_str: "json_value v \<Longrightarrow> first_ok (str v)"
proof (cases v)
  case (JNum i)
  obtain c r where cr: "num_str i = c # r" "is_digit c \<or> c = 0x2D"
    using num_str_first by blast
  then show ?thesis by (auto simp: JNum first_ok_def is_ws_def is_digit_def)
qed (simp_all add: first_ok_def ascii_def is_ws_def quote_def)

lemma first_ok_str_elems: "json_values vs \<Longrightarrow> vs \<noteq> [] \<Longrightarrow> first_ok (str_elems vs)"
proof (cases vs)
  case (Cons v ws)
  assume "json_values vs"
  with Cons show ?thesis
    by (cases ws) (simp_all add: first_ok_str first_ok_append)
qed simp

lemma skip_ws_first_ok: "first_ok s \<Longrightarrow> skip_ws s = s"
  by (cases s) (simp_all add: first_ok_def skip_ws_def)

lemma skip_ws_Cons: "\<not> is_ws c \<Longrightarrow> skip_ws (c # r) = c # r"
  by (simp add: skip_ws_def)

lemma json_props_filter: "json_props ps \<Longrightarrow> filter (\<lambda>p. snd p \<noteq> JUndefined) ps = ps"
  by (induction ps) auto

lemma put_prop_fresh: "k \<notin> fst ` set acc \<Longrightarrow> put_prop k v acc = acc @ [(k, v)]"
  by (induction acc) auto

lemma parse_value_primitive:
  "num_rest rest \<Longrightarrow> parse_value (ascii ''null'' @ rest) = Some (JNull, rest)"
  "num_rest rest \<Longrightarrow> parse_value (ascii ''true'' @ rest) = Some (JBool True, rest)"
  "num_rest rest \<Longrightarrow> parse_value (ascii ''false'' @ rest) = Some (JBool False, rest)"
  by (simp_all add: parse_value.simps ascii_def skip_ws_def is_ws_def parse_literal_def starts_with_def)

lemma parse_value_num:
  assumes "num_rest rest"
  shows "parse_value (num_str i @ rest) = Some (JNum i, rest)"
proof -
  obtain c r where cr: "num_str i = c # r" "is_digit c \<or> c = 0x2D"
    using num_str_first by blast
  then have c: "\<not> is_ws c" "c \<noteq> 0x22" "c \<noteq> 0x5B" "c \<noteq> 0x7B"
    by (auto simp: is_digit_def is_ws_def)
  show ?thesis
    using parse_literal_num_str [OF assms, of i] c
    by (subst parse_value.simps) (simp add: cr skip_ws_Cons)
qed

lemma parse_value_str:
  "parse_value (quote s @ rest) = Some (JStr s, rest)"
  by (subst parse_value.simps) (simp add: quote_def skip_ws_def is_ws_def parse_chars_quote_body)


lemma json_roundtrip:
  "json_value v \<Longrightarrow> num_rest rest \<Longrightarrow> parse_value (str v @ rest) = Some (v, rest)"
  "json_values vs \<Longrightarrow> vs \<noteq> [] \<Longrightarrow>
     parse_elems acc (str_elems vs @ 0x5D # rest1) = Some (JArr (acc @ vs), rest1)"
  "json_props ps \<Longrightarrow> ps \<noteq> [] \<Longrightarrow> distinct (map fst (acc1 @ ps)) \<Longrightarrow>
     parse_props acc1 (str_props ps @ 0x7D # rest2) = Some (JObj (acc1 @ ps), rest2)"
proof (induction v and vs and ps arbitrary: rest and acc rest1 and acc1 rest2
    rule: str_str_elems_str_props.induct)
  case 1
  then show ?case by simp
next
  case 2
  then show ?case by (simp add: parse_value_primitive)
next
  case (3 b)
  then show ?case by (simp add: parse_value_primitive)
next
  case (4 i)
  then show ?case by (simp add: parse_value_num)
next
  case (5 i)
  then show ?case by simp
next
  case (6 s)
  then show ?case by (simp add: parse_value_str)
next
  case (7 vs)
  show ?case
  proof (cases "vs = []")
    case True
    then show ?thesis
      by (subst parse_value.simps) (simp add: skip_ws_def is_ws_def)
  next
    case False
    with 7 have fo: "first_ok (str_elems vs @ 0x5D # rest)"
      by (simp add: first_ok_str_elems first_ok_append)
    then obtain d r1 where dr: "str_elems vs @ 0x5D # rest = d # r1" "d \<noteq> 0x5D"
      by (cases "str_elems vs @ 0x5D # rest") (auto simp: first_ok_def)
    have "parse_elems [] (str_elems vs @ 0x5D # rest) = Some (JArr ([] @ vs), rest)"
      using 7 False by simp
    then show ?thesis
      using dr fo
      by (subst parse_value.simps) (simp add: skip_ws_Cons is_ws_def skip_ws_first_ok)
  qed
next
  case (8 ps)
  then have f: "filter (\<lambda>p. snd p \<noteq> JUndefined) ps = ps"
    by (simp add: json_props_filter)
  show ?case
  proof (cases "ps = []")
    case True
    then show ?thesis
      by (subst parse_value.simps) (simp add: skip_ws_def is_ws_def)
  next
    case False
    then obtain p ps' where pp: "ps = p # ps'" by (cases ps) auto
    have "\<exists>r1. str_props ps = 0x22 # r1"
      by (cases ps') (simp_all add: pp quote_def)
    then obtain r1 where dr: "str_props ps @ 0x7D # rest = 0x22 # r1" by auto
    have "parse_props [] (str_props ps @ 0x7D # rest) = Some (JObj ([] @ ps), rest)"
      using 8 False f by simp
    then show ?thesis
      using dr f
      by (subst parse_value.simps) (simp add: skip_ws_Cons is_ws_def)
  qed
next
  case 9
  then show ?case by simp
next
  case (10 v)
  then have "parse_value (str v @ 0x5D # rest1) = Some (v, 0x5D # rest1)"
    by (simp add: num_rest_def)
  then show ?case
    by (subst parse_elems.simps) (simp add: skip_ws_Cons is_ws_def)
next
  case (11 v w vs)
  then have "parse_value (str v @ 0x2C # str_elems (w # vs) @ 0x5D # rest1)
      = Some (v, 0x2C # str_elems (w # vs) @ 0x5D # rest1)"
    by (simp add: num_rest_def)
  moreover have "parse_elems (acc @ [v]) (str_elems (w # vs) @ 0x5D # rest1)
      = Some (JArr ((acc @ [v]) @ w # vs), rest1)"
    using 11 by simp
  ultimately show ?case
    by (subst parse_elems.simps) (simp add: skip_ws_Cons is_ws_def)
next
  case 12
  then show ?case by simp
next
  case (13 p)
  then have pv: "parse_value (str (snd p) @ 0x7D # rest2) = Some (snd p, 0x7D # rest2)"
    by (simp add: num_rest_def)
  have fresh: "put_prop (fst p) (snd p) acc1 = acc1 @ [p]"
    using 13 by (simp add: put_prop_fresh)
  have pc: "parse_chars (quote_body (fst p) @ 0x22 # 0x3A # str (snd p) @ 0x7D # rest2)
      = Some (fst p, 0x3A # str (snd p) @ 0x7D # rest2)"
    by (rule parse_chars_quote_body)
  show ?case
    using pv fresh pc
    by (subst parse_props.simps) (simp add: quote_def skip_ws_Cons is_ws_def)
next
  case (14 p q ps)
  then have pv: "parse_value (str (snd p) @ 0x2C # str_props (q # ps) @ 0x7D # rest2)
      = Some (snd p, 0x2C # str_props (q # ps) @ 0x7D # rest2)"
    by (simp add: num_rest_def)
  have fresh: "put_prop (fst p) (snd p) acc1 = acc1 @ [p]"
    using 14 by (simp add: put_prop_fresh)
  have pc: "parse_chars (quote_body (fst p) @ 0x22 # 0x3A # str (snd p) @ 0x2C # str_props (q # ps) @ 0x7D # rest2)
      = Some (fst p, 0x3A # str (snd p) @ 0x2C # str_props (q # ps) @ 0x7D # rest2)"
    by (rule parse_chars_quote_body)
  have ih: "parse_props (acc1 @ [p]) (str_props (q # ps) @ 0x7D # rest2)
      = Some (JObj ((acc1 @ [p]) @ q # ps), rest2)"
  proof (rule 14(2))
    show "json_props (q # ps)" using 14(3) by simp
    show "q # ps \<noteq> []" by simp
    show "distinct (map fst ((acc1 @ [p]) @ q # ps))" using 14(5) by simp
  qed
  show ?case
    using pv fresh pc ih
    by (subst parse_props.simps) (simp add: quote_def skip_ws_Cons is_ws_def)
qed

lemma JSON_roundtrip: "json_value v \<Longrightarrow> JSON_parse (str v) = Inr v"
  using json_roundtrip(1) [of v "[]"] by (simp add: JSON_parse_def num_rest_def skip_ws_def)

section \<open>The merge of the configuration\<close>

text \<open>
  C3 (as stated it fails): the overrides \<^verbatim>\<open>ttl: false\<close>, \<^verbatim>\<open>null\<close>, \<^verbatim>\<open>undefined\<close> and
  \<^verbatim>\<open>5\<close> would each give a different effective ttl, and \<^verbatim>\<open>false\<close> would not fall back
  to the global default. With a global default of 10 seconds, the override
  \<^verbatim>\<open>ttl: false\<close> gives the effective ttl 10, the very value that no override gives.
\<close>

theorem ttl_false_falls_back_to_default:
  "ttl (conf_merge (config\<lparr>ttl := Some (TtlNum 10)\<rparr>) (no_config\<lparr>ttl := Some (TtlBool False)\<rparr>))
     = Some (TtlNum 10)
   \<and> ttl (conf_merge (config\<lparr>ttl := Some (TtlNum 10)\<rparr>) no_config) = Some (TtlNum 10)"
  by (simp add: conf_merge_def config_def no_config_def js_or_def truthy_ttl_def)

text \<open>
  C3 (amended): for every global configuration \<open>g\<close>, the override \<^verbatim>\<open>ttl: null\<close> gives
  the effective ttl \<^verbatim>\<open>null\<close>, an absent (\<^verbatim>\<open>undefined\<close>) ttl and \<^verbatim>\<open>ttl: false\<close> both give
  the global default, and \<^verbatim>\<open>ttl: 5\<close> gives 5.
\<close>

theorem conf_merge_ttl_cases:
  "ttl (conf_merge g (l\<lparr>ttl := Some TtlNull\<rparr>)) = Some TtlNull
   \<and> ttl (conf_merge g (l\<lparr>ttl := None\<rparr>)) = ttl g
   \<and> ttl (conf_merge g (l\<lparr>ttl := Some (TtlBool False)\<rparr>)) = ttl g
   \<and> ttl (conf_merge g (l\<lparr>ttl := Some (TtlNum 5)\<rparr>)) = Some (TtlNum 5)"
  by (simp add: conf_merge_def js_or_def truthy_ttl_def)

theorem conf_merge_ttl_cases_witness:
  "ttl (conf_merge config (no_config\<lparr>ttl := Some TtlNull\<rparr>)) = Some TtlNull
   \<and> ttl (conf_merge config (no_config\<lparr>ttl := None\<rparr>)) = Some TtlNull
   \<and> ttl (conf_merge config (no_config\<lparr>ttl := Some (TtlBool False)\<rparr>)) = Some TtlNull
   \<and> ttl (conf_merge config (no_config\<lparr>ttl := Some (TtlNum 5)\<rparr>)) = Some (TtlNum 5)"
  using conf_merge_ttl_cases [of config no_config] by (simp add: config_def)

section \<open>Evaluation\<close>

text \<open>The defining equations that evaluate the host's functions on a concrete value.\<close>

lemmas host_simps = JSON_parse_def ascii_def skip_ws_def is_ws_def parse_literal_def
  starts_with_def parse_number_def parse_nat_def is_digit_def digits_value_def hex4_value_def
  hex_value_def cons_char_def escape_char_def quote_def quote_unit_def APX_def ttl_key_def
  num_str_def digits.simps is_high_def is_low_def uescape_def hex4_def hex_digit_def
  parse_value.simps parse_elems.simps parse_props.simps

text \<open>The defining equations of the operations of \<^verbatim>\<open>src/ls.ts\<close>.\<close>

lemmas model_simps = supportsLS_def flush_sweep_def flush_key_def flush_def get_def set_ls_def
  set_try_def encrypt_val_def wrap_ttl_def conf_merge_def conf_prefix_def js_or_def
  spread_field_def truthy_bool_def truthy_ttl_def truthy_prefix_def with_prefix_def
  prefix_str_def conf_hasTTL_def ttl_number_def getItem_def setItem_def removeItem_def
  store_size_def dom_string_def hasTTL_def isObject_def in_obj_def get_prop_def set_prop_def
  decrypt_item_def or_NOOP_def NOOP_def obfus_def default_decrypter_def spread_def
  charCodeAt0_def num_add_def num_sub_def fromCharCode_def JSON_stringify_def js_gt_def
  to_number_def config_def no_config_def remove_def clear_def Let_def

text \<open>A fresh page: the module not yet used, an empty store, the shipped configuration.\<close>

definition new_world :: world where
  "new_world = \<lparr>hasLS = None, available = True, items = [], quota = 5000000, defaults = config\<rparr>"

section \<open>The sweep\<close>

text \<open>
  \<open>flush_removes now force p w k\<close>: the callback of \<open>flush\<close> removes the key \<open>k\<close>
  from the store \<open>w\<close>.
\<close>

definition flush_removes :: "int \<Rightarrow> bool \<Rightarrow> prefix_value option \<Rightarrow> world \<Rightarrow> jsstring \<Rightarrow> bool" where
  "flush_removes now force p w k =
     ((truthy_prefix p \<longrightarrow> starts_with k (prefix_str p)) \<and>
      (case getItem k w of
         None \<Rightarrow> False
       | Some s \<Rightarrow>
           (case JSON_parse s of
              Inl e \<Rightarrow> False
            | Inr item \<Rightarrow> s \<noteq> [] \<and> hasTTL item \<and> (js_gt now (get_prop item ttl_key) \<or> force))))"

lemma flush_key_eq:
  "flush_key now force p w key = (if flush_removes now force p w key then removeItem key w else w)"
  by (auto simp: flush_key_def flush_removes_def split: option.splits sum.splits)

lemma getItem_removeItem [simp]:
  "getItem k (removeItem key w) = (if k = key then None else getItem k w)"
proof -
  have "map_of (filter (\<lambda>p. fst p \<noteq> key) ps) k = (if k = key then None else map_of ps k)" for ps :: "(jsstring \<times> jsstring) list"
    by (induction ps) auto
  then show ?thesis by (simp add: getItem_def removeItem_def)
qed






lemma foldl_flush_key_fields:
  "hasLS (foldl (flush_key now force p) w ks) = hasLS w \<and>
   available (foldl (flush_key now force p) w ks) = available w \<and>
   quota (foldl (flush_key now force p) w ks) = quota w \<and>
   defaults (foldl (flush_key now force p) w ks) = defaults w"
  by (induction ks arbitrary: w) (auto simp: flush_key_eq removeItem_def)

lemma flush_sweep_fields [simp]:
  "hasLS (flush_sweep now force lc w) = hasLS w"
  "available (flush_sweep now force lc w) = available w"
  "quota (flush_sweep now force lc w) = quota w"
  "defaults (flush_sweep now force lc w) = defaults w"
  by (simp_all add: flush_sweep_def foldl_flush_key_fields)


lemma supportsLS_fields [simp]:
  "defaults (snd (supportsLS now w)) = defaults w"
  "quota (snd (supportsLS now w)) = quota w"
  by (auto simp: supportsLS_def Let_def split: option.splits)





section \<open>\<open>set\<close>, then \<open>get\<close>\<close>

subsection \<open>What \<open>set\<close> stores\<close>

lemma json_not_throws:
  "json_value v \<Longrightarrow> \<not> throws v"
  "json_values vs \<Longrightarrow> \<not> throws_list vs"
  "json_props ps \<Longrightarrow> \<not> throws_props ps"
  by (induction v and vs and ps rule: json_value_json_values_json_props.induct) auto

lemma JSON_stringify_json: "json_value v \<Longrightarrow> JSON_stringify v = Inr (JStr (str v))"
  by (auto simp: JSON_stringify_def json_not_throws)

lemma str_nonempty: "json_value v \<Longrightarrow> str v \<noteq> []"
  using first_ok_str [of v] by (auto simp: first_ok_def)

lemma map_of_put_item: "map_of (put_item k v ps) = (map_of ps)(k \<mapsto> v)"
  by (induction ps) auto

lemma setItem_Inr:
  "setItem k s w = Inr w' \<Longrightarrow> w' = w\<lparr>items := put_item k s (items w)\<rparr>"
  by (auto simp: setItem_def Let_def split: if_splits)

lemma getItem_setItem:
  "setItem k s w = Inr w' \<Longrightarrow> getItem k' w' = (if k' = k then Some s else getItem k' w)"
  by (auto dest!: setItem_Inr simp: getItem_def map_of_put_item)

lemma supportsLS_hasLS: "hasLS (snd (supportsLS now w)) = Some (fst (supportsLS now w))"
  by (auto simp: supportsLS_def Let_def split: option.splits)

lemma supportsLS_done: "hasLS w = Some b \<Longrightarrow> supportsLS now w = (b, w)"
  by (simp add: supportsLS_def)

lemma prefix_conf_merge [simp]: "prefix (conf_merge g l) = conf_prefix g l"
  by (simp add: conf_merge_def)

text \<open>A call of \<open>set\<close> that does not return \<^verbatim>\<open>false\<close> has run its \<^verbatim>\<open>try\<close> block to the end.\<close>

lemma set_ls_ReturnsVoid:
  assumes "set_ls now k v lc w0 = (ReturnsVoid, w1)"
  shows "fst (supportsLS now w0)"
    and "set_try now k v (conf_merge (defaults w0) lc) (snd (supportsLS now w0)) = Inr w1"
  using assms
  by (auto simp: set_ls_def split_beta Let_def split: if_splits sum.splits)

lemma set_try_fields:
  assumes "set_try now k v conf w = Inr w1"
  shows "hasLS w1 = hasLS w" and "defaults w1 = defaults w"
  using assms
  by (auto simp: set_try_def dest!: setItem_Inr split: sum.splits)

lemma set_ls_fields:
  assumes "set_ls now k v lc w0 = (ReturnsVoid, w1)"
  shows "hasLS w1 = Some True" and "defaults w1 = defaults w0"
  using set_ls_ReturnsVoid [OF assms] set_try_fields [OF set_ls_ReturnsVoid(2) [OF assms]]
    supportsLS_hasLS [of now w0]
  by simp_all

text \<open>The value that the \<^verbatim>\<open>try\<close> block serializes: wrapped when a TTL is in force.\<close>

lemma set_try_plain:
  assumes "json_value val" and "encrypt_val conf (wrap_ttl now conf v) = Inr val"
    and "set_try now k v conf w = Inr w1"
  shows "getItem k' w1 = (if k' = with_prefix (prefix conf) k then Some (str val) else getItem k' w)"
  using assms
  by (auto simp: set_try_def JSON_stringify_json dom_string_def getItem_setItem)

subsection \<open>What \<open>get\<close> reads\<close>

lemma get_stored:
  assumes "hasLS w = Some True"
    and "getItem (with_prefix (conf_prefix (defaults w) lc) k) w = Some s"
    and "JSON_parse s = Inr item"
  shows "get now k lc w =
     (if \<not> hasTTL item then (Inr (decrypt_item (conf_merge (defaults w) lc) item), w)
      else if js_gt now (get_prop (decrypt_item (conf_merge (defaults w) lc) item) ttl_key)
        then (Inr JNull, removeItem (with_prefix (conf_prefix (defaults w) lc) k) w)
      else (Inr (get_prop (decrypt_item (conf_merge (defaults w) lc) item) APX), w))"
proof -
  have "s \<noteq> []"
    using assms(3) by (auto simp: JSON_parse_def parse_value.simps skip_ws_def)
  then show ?thesis
    using assms by (simp add: get_def supportsLS_done Let_def)
qed

lemma decrypt_item_off:
  "\<not> truthy_bool (decrypt conf) \<Longrightarrow> \<not> truthy_bool (encrypt conf) \<Longrightarrow> decrypt_item conf item = item"
  by (simp add: decrypt_item_def)

text \<open>
  C1 (amended): let \<open>v\<close> be a JSON-serializable value that is not an object with the
  sentinel field, let the effective configuration have ttl \<^verbatim>\<open>null\<close>, encrypt
  \<^verbatim>\<open>false\<close> and no \<^verbatim>\<open>decrypt\<close> flag, and let \<open>set(k, v)\<close> not have returned
  \<^verbatim>\<open>false\<close>. Then \<open>get(k)\<close> under the same configuration returns \<open>v\<close>, at any time,
  and leaves the store as it is.
\<close>

theorem plain_roundtrip:
  assumes "json_value v" and "\<not> hasTTL v"
    and "ttl (conf_merge (defaults w0) lc) = Some TtlNull"
    and "encrypt (conf_merge (defaults w0) lc) = Some False"
    and "decrypt (conf_merge (defaults w0) lc) \<noteq> Some True"
    and "set_ls now k v lc w0 = (ReturnsVoid, w1)"
  shows "get now' k lc w1 = (Inr v, w1)"
proof -
  let ?conf = "conf_merge (defaults w0) lc"
  have off: "\<not> truthy_bool (decrypt ?conf)" "\<not> truthy_bool (encrypt ?conf)"
    using assms(4,5) by (simp_all add: truthy_bool_def)
  have val: "encrypt_val ?conf (wrap_ttl now ?conf v) = Inr v"
    using assms(3) off
    by (simp add: encrypt_val_def wrap_ttl_def conf_hasTTL_def truthy_ttl_def)
  have f: "hasLS w1 = Some True" "defaults w1 = defaults w0"
    using set_ls_fields [OF assms(6)] by simp_all
  have "getItem (with_prefix (conf_prefix (defaults w1) lc) k) w1 = Some (str v)"
    using set_try_plain [OF assms(1) val set_ls_ReturnsVoid(2) [OF assms(6)]] f by simp
  from get_stored [OF f(1) this JSON_roundtrip [OF assms(1)]]
  show ?thesis
    using assms(2) off by (simp add: f decrypt_item_off)
qed

theorem plain_roundtrip_witness:
  "get 2000 (ascii ''k'') no_config (snd (set_ls 1000 (ascii ''k'') (JStr (ascii ''x'')) no_config new_world))
     = (Inr (JStr (ascii ''x'')), snd (set_ls 1000 (ascii ''k'') (JStr (ascii ''x'')) no_config new_world))"
proof -
  have "fst (set_ls 1000 (ascii ''k'') (JStr (ascii ''x'')) no_config new_world) = ReturnsVoid"
    by (simp add: model_simps host_simps new_world_def)
  then have s: "set_ls 1000 (ascii ''k'') (JStr (ascii ''x'')) no_config new_world
      = (ReturnsVoid, snd (set_ls 1000 (ascii ''k'') (JStr (ascii ''x'')) no_config new_world))"
    by (metis prod.collapse)
  have c: "ttl (conf_merge (defaults new_world) no_config) = Some TtlNull"
    "encrypt (conf_merge (defaults new_world) no_config) = Some False"
    "decrypt (conf_merge (defaults new_world) no_config) \<noteq> Some True"
    by (simp_all add: model_simps new_world_def)
  have v: "json_value (JStr (ascii ''x''))" "\<not> hasTTL (JStr (ascii ''x''))"
    by (simp_all add: hasTTL_def isObject_def)
  show ?thesis
    by (rule plain_roundtrip [OF v c s])
qed

text \<open>
  C1 (as stated it fails): every JSON-serializable value would be read back by \<open>get\<close>
  after a plain \<open>set\<close>. The object \<^verbatim>\<open>{"\u0000": "x", "ttl": 0}\<close> is JSON-serializable
  and is stored plainly under ttl \<^verbatim>\<open>null\<close> and encrypt \<^verbatim>\<open>false\<close>, and \<open>get\<close>
  returns \<^verbatim>\<open>null\<close> for it.
\<close>

theorem sentinel_value_is_not_read_back:
  "json_value (JObj [(APX, JStr (ascii ''x'')), (ttl_key, JNum 0)])
   \<and> ttl (conf_merge (defaults new_world) no_config) = Some TtlNull
   \<and> encrypt (conf_merge (defaults new_world) no_config) = Some False
   \<and> fst (set_ls 1000 (ascii ''k'') (JObj [(APX, JStr (ascii ''x'')), (ttl_key, JNum 0)])
            no_config new_world) = ReturnsVoid
   \<and> fst (get 1000 (ascii ''k'') no_config
        (snd (set_ls 1000 (ascii ''k'') (JObj [(APX, JStr (ascii ''x'')), (ttl_key, JNum 0)])
               no_config new_world))) = Inr JNull"
  by (simp add: model_simps host_simps new_world_def)

section \<open>The sentinel\<close>




section \<open>Expiry\<close>

lemma APX_neq_ttl_key: "APX \<noteq> ttl_key"
  by (simp add: APX_def ttl_key_def ascii_def)

lemma wrapper_props [simp]:
  "hasTTL (JObj [(APX, v), (ttl_key, e)])"
  "get_prop (JObj [(APX, v), (ttl_key, e)]) APX = v"
  "get_prop (JObj [(APX, v), (ttl_key, e)]) ttl_key = e"
  using APX_neq_ttl_key by (auto simp: hasTTL_def isObject_def in_obj_def get_prop_def)



section \<open>What \<open>get\<close> changes\<close>


lemma supportsLS_unchanged: "hasLS w \<noteq> None \<Longrightarrow> snd (supportsLS now w) = w"
  by (auto simp: supportsLS_def)










section \<open>A \<open>set\<close> that fails\<close>







section \<open>A decrypter that fails\<close>




section \<open>The obfuscator\<close>

text \<open>
  C6 (the code falls short of it): \<open>obfus\<close> iterates its text by code points
  (\<^verbatim>\<open>[...str]\<close>) and shifts only the first code unit of each (\<^verbatim>\<open>charCodeAt(0)\<close>), so
  the second half of a surrogate pair is lost. For the one-character string U+1F600
  (code units D83D DE00) and the shipped secret 75, \<open>set\<close> with encrypt succeeds, and
  \<open>get\<close> with the same secret returns the single code unit D83D, with a TTL and
  without. A shift can also make a pair of two ordinary characters: under the secret 55262
  the string U+0430 comes back as the empty string.
\<close>

theorem obfus_loses_astral_characters:
  "json_value (JStr [0xD83D, 0xDE00])
   \<and> fst (set_ls 1000 (ascii ''k'') (JStr [0xD83D, 0xDE00])
        (no_config\<lparr>encrypt := Some True, secret := Some 75\<rparr>) new_world) = ReturnsVoid
   \<and> fst (get 1000 (ascii ''k'') (no_config\<lparr>encrypt := Some True, secret := Some 75\<rparr>)
        (snd (set_ls 1000 (ascii ''k'') (JStr [0xD83D, 0xDE00])
               (no_config\<lparr>encrypt := Some True, secret := Some 75\<rparr>) new_world)))
      = Inr (JStr [0xD83D])
   \<and> fst (get 1000 (ascii ''k'') (no_config\<lparr>encrypt := Some True, secret := Some 75\<rparr>)
        (snd (set_ls 1000 (ascii ''k'') (JStr [0xD83D, 0xDE00])
               (no_config\<lparr>encrypt := Some True, secret := Some 75, ttl := Some (TtlNum 5)\<rparr>) new_world)))
      = Inr (JStr [0xD83D])
   \<and> fst (get 1000 (ascii ''k'') (no_config\<lparr>encrypt := Some True, secret := Some 55262\<rparr>)
        (snd (set_ls 1000 (ascii ''k'') (JStr [0x430])
               (no_config\<lparr>encrypt := Some True, secret := Some 55262\<rparr>) new_world)))
      = Inr (JStr [])"
  by (simp add: model_simps host_simps new_world_def)

section \<open>Prefixes\<close>

lemma set_plain_stored:
  assumes "json_value v"
    and "ttl (conf_merge (defaults w0) lc) = Some TtlNull"
    and "encrypt (conf_merge (defaults w0) lc) = Some False"
    and "set_ls now k v lc w0 = (ReturnsVoid, w1)"
  shows "getItem k' w1 =
     (if k' = with_prefix (conf_prefix (defaults w0) lc) k then Some (str v)
      else getItem k' (snd (supportsLS now w0)))"
proof -
  let ?conf = "conf_merge (defaults w0) lc"
  have val: "encrypt_val ?conf (wrap_ttl now ?conf v) = Inr v"
    using assms(2,3)
    by (simp add: encrypt_val_def wrap_ttl_def conf_hasTTL_def truthy_ttl_def truthy_bool_def)
  show ?thesis
    using set_try_plain [OF assms(1) val set_ls_ReturnsVoid(2) [OF assms(4)]] by simp
qed

lemma get_plain:
  assumes "hasLS w = Some True"
    and "getItem (with_prefix (conf_prefix (defaults w) lc) k) w = Some (str v)"
    and "json_value v" and "\<not> hasTTL v"
    and "encrypt (conf_merge (defaults w) lc) = Some False"
    and "decrypt (conf_merge (defaults w) lc) \<noteq> Some True"
  shows "get now k lc w = (Inr v, w)"
  using get_stored [OF assms(1,2) JSON_roundtrip [OF assms(3)], of now] assms(4,5,6)
  by (simp add: decrypt_item_off truthy_bool_def)

lemma foldl_removeItem:
  "foldl (\<lambda>w key. if P key then removeItem key w else w) w ks
     = w\<lparr>items := filter (\<lambda>e. \<not> (fst e \<in> set ks \<and> P (fst e))) (items w)\<rparr>"
proof (induction ks arbitrary: w)
  case Nil
  then show ?case by simp
next
  case (Cons key ks)
  show ?case
  proof (cases "P key")
    case True
    have "filter (\<lambda>e. \<not> (fst e \<in> set ks \<and> P (fst e))) (filter (\<lambda>p. fst p \<noteq> key) (items w))
        = filter (\<lambda>e. \<not> (fst e \<in> set (key # ks) \<and> P (fst e))) (items w)"
      using True by (auto intro: filter_cong)
    with True show ?thesis
      by (simp add: Cons.IH removeItem_def)
  next
    case False
    have "filter (\<lambda>e. \<not> (fst e \<in> set ks \<and> P (fst e))) (items w)
        = filter (\<lambda>e. \<not> (fst e \<in> set (key # ks) \<and> P (fst e))) (items w)"
      using False by (auto intro: filter_cong)
    with False show ?thesis
      by (simp add: Cons.IH)
  qed
qed

lemma snd_clear:
  "snd (clear now lc w0) =
     (if \<not> fst (supportsLS now w0) then snd (supportsLS now w0)
      else if truthy_prefix (conf_prefix (defaults w0) lc)
        then (snd (supportsLS now w0))\<lparr>items :=
               filter (\<lambda>e. \<not> starts_with (fst e) (prefix_str (conf_prefix (defaults w0) lc)))
                 (items (snd (supportsLS now w0)))\<rparr>
      else (snd (supportsLS now w0))\<lparr>items := []\<rparr>)"
proof -
  obtain ok w where g: "supportsLS now w0 = (ok, w)" by (cases "supportsLS now w0")
  have d: "defaults w = defaults w0"
    using supportsLS_fields(1) [of now w0] by (simp add: g)
  have "filter (\<lambda>e. fst e \<in> fst ` set (items w) \<longrightarrow> \<not> starts_with (fst e) px) (items w)
      = filter (\<lambda>e. \<not> starts_with (fst e) px) (items w)" for px
    by (auto intro: filter_cong)
  then show ?thesis
    by (simp add: clear_def g d Let_def foldl_removeItem)
qed

text \<open>
  A fresh page whose store holds a plain entry under \<^verbatim>\<open>a:x\<close> and an expired
  TTL-wrapped entry under \<^verbatim>\<open>b:y\<close>.
\<close>

definition prefixed_store :: world where
  "prefixed_store = \<lparr>hasLS = None, available = True,
     items = [(ascii ''a:x'', str (JNum 1)),
              (ascii ''b:y'', str (JObj [(APX, JNum 1), (ttl_key, JNum 5)]))],
     quota = 5000000, defaults = config\<rparr>"

text \<open>
  C9 (as stated it fails), in both of its parts. After \<open>set(k, v1, {prefix: "a:"})\<close>
  with the JSON-serializable \<open>v1\<close> = \<^verbatim>\<open>{"\u0000": true}\<close> and
  \<open>set(k, 2, {prefix: "b:"})\<close>, \<open>get(k, {prefix: "a:"})\<close> returns \<^verbatim>\<open>true\<close>, not
  \<open>v1\<close>. And on a fresh page, \<open>clear({prefix: "a:"})\<close> as the first call deletes the
  expired entry under \<^verbatim>\<open>b:y\<close>, a key that does not start with the prefix.
\<close>

theorem prefixes_do_not_save_the_sentinel:
  "json_value (JObj [(APX, JBool True)])
   \<and> fst (get 1000 (ascii ''k'') (no_config\<lparr>prefix := Some (PrefixStr (ascii ''a:''))\<rparr>)
        (snd (set_ls 1000 (ascii ''k'') (JNum 2) (no_config\<lparr>prefix := Some (PrefixStr (ascii ''b:''))\<rparr>)
          (snd (set_ls 1000 (ascii ''k'') (JObj [(APX, JBool True)])
                 (no_config\<lparr>prefix := Some (PrefixStr (ascii ''a:''))\<rparr>) new_world)))))
      = Inr (JBool True)
   \<and> getItem (ascii ''b:y'') prefixed_store = Some (str (JObj [(APX, JNum 1), (ttl_key, JNum 5)]))
   \<and> getItem (ascii ''b:y'')
        (snd (clear 1000 (no_config\<lparr>prefix := Some (PrefixStr (ascii ''a:''))\<rparr>) prefixed_store))
      = None"
  by (simp add: model_simps host_simps new_world_def prefixed_store_def)

text \<open>
  C9 (amended): let \<open>v1\<close> and \<open>v2\<close> be JSON-serializable values that are not objects
  with the sentinel field, \<open>pa\<close> and \<open>pb\<close> two different non-empty prefixes, the global
  configuration plain (ttl \<^verbatim>\<open>null\<close>, encrypt \<^verbatim>\<open>false\<close>, no \<^verbatim>\<open>decrypt\<close> flag), and let
  neither \<open>set(k, v1, {prefix: pa})\<close> nor the following \<open>set(k, v2, {prefix: pb})\<close>
  have returned \<^verbatim>\<open>false\<close>. Then \<open>get(k, {prefix: pa})\<close> returns \<open>v1\<close> and
  \<open>get(k, {prefix: pb})\<close> returns \<open>v2\<close>. On an available store, \<open>clear\<close> with an
  effective prefix deletes from the store, as the guard \<open>supportsLS\<close> left it, exactly
  the entries whose key starts with the prefix, and \<open>clear\<close> with no effective prefix
  deletes every entry; the guard changes nothing once it has run.
\<close>

theorem prefix_isolation:
  assumes "json_value v1" and "json_value v2" and "\<not> hasTTL v1" and "\<not> hasTTL v2"
    and "pa \<noteq> []" and "pb \<noteq> []" and "pa \<noteq> pb"
    and "ttl (defaults w0) = Some TtlNull" and "encrypt (defaults w0) = Some False"
    and "decrypt (defaults w0) \<noteq> Some True"
    and "set_ls t1 k v1 (no_config\<lparr>prefix := Some (PrefixStr pa)\<rparr>) w0 = (ReturnsVoid, w1)"
    and "set_ls t2 k v2 (no_config\<lparr>prefix := Some (PrefixStr pb)\<rparr>) w1 = (ReturnsVoid, w2)"
  shows "get t3 k (no_config\<lparr>prefix := Some (PrefixStr pa)\<rparr>) w2 = (Inr v1, w2)
    \<and> get t3 k (no_config\<lparr>prefix := Some (PrefixStr pb)\<rparr>) w2 = (Inr v2, w2)
    \<and> snd (clear now lc w) =
        (if \<not> fst (supportsLS now w) then snd (supportsLS now w)
         else if truthy_prefix (conf_prefix (defaults w) lc)
           then (snd (supportsLS now w))\<lparr>items :=
                  filter (\<lambda>e. \<not> starts_with (fst e) (prefix_str (conf_prefix (defaults w) lc)))
                    (items (snd (supportsLS now w)))\<rparr>
         else (snd (supportsLS now w))\<lparr>items := []\<rparr>)
    \<and> (hasLS w \<noteq> None \<longrightarrow> snd (supportsLS now w) = w)"
proof -
  let ?a = "no_config\<lparr>prefix := Some (PrefixStr pa)\<rparr>"
  let ?b = "no_config\<lparr>prefix := Some (PrefixStr pb)\<rparr>"
  have f1: "hasLS w1 = Some True" "defaults w1 = defaults w0"
    using set_ls_fields [OF assms(11)] by simp_all
  have f2: "hasLS w2 = Some True" "defaults w2 = defaults w0"
    using set_ls_fields [OF assms(12)] f1 by simp_all
  have c: "ttl (conf_merge (defaults w0) l) = Some TtlNull"
    "encrypt (conf_merge (defaults w0) l) = Some False"
    "decrypt (conf_merge (defaults w0) l) \<noteq> Some True"
    if "ttl l = None" "encrypt l = None" "decrypt l = None" for l
    using assms(8,9,10) that
    by (simp_all add: conf_merge_def js_or_def truthy_ttl_def truthy_bool_def spread_field_def)
  have ca: "ttl (conf_merge (defaults w0) ?a) = Some TtlNull"
    "encrypt (conf_merge (defaults w0) ?a) = Some False"
    "decrypt (conf_merge (defaults w0) ?a) \<noteq> Some True"
    by (rule c; simp add: no_config_def)+
  have cb: "ttl (conf_merge (defaults w0) ?b) = Some TtlNull"
    "encrypt (conf_merge (defaults w0) ?b) = Some False"
    "decrypt (conf_merge (defaults w0) ?b) \<noteq> Some True"
    by (rule c; simp add: no_config_def)+
  have ka: "with_prefix (conf_prefix g ?a) k = pa @ k" for g
    using assms(5) by (simp add: with_prefix_def conf_prefix_def js_or_def truthy_prefix_def prefix_str_def)
  have kb: "with_prefix (conf_prefix g ?b) k = pb @ k" for g
    using assms(6) by (simp add: with_prefix_def conf_prefix_def js_or_def truthy_prefix_def prefix_str_def)
  have s1: "getItem (pa @ k) w1 = Some (str v1)"
    using set_plain_stored [OF assms(1) ca(1,2) assms(11), of "pa @ k"] by (simp add: ka)
  have g1: "snd (supportsLS t2 w1) = w1"
    using f1(1) by (simp add: supportsLS_done)
  have s2: "getItem k' w2 = (if k' = pb @ k then Some (str v2) else getItem k' w1)" for k'
    using set_plain_stored [OF assms(2) _ _ assms(12), of k'] cb by (simp add: f1 kb g1)
  have "pa @ k \<noteq> pb @ k" using assms(7) by simp
  then have sa: "getItem (with_prefix (conf_prefix (defaults w2) ?a) k) w2 = Some (str v1)"
    and sb: "getItem (with_prefix (conf_prefix (defaults w2) ?b) k) w2 = Some (str v2)"
    by (simp_all add: ka kb s2 s1)
  have "get t3 k ?a w2 = (Inr v1, w2)"
    by (rule get_plain [OF f2(1) sa assms(1,3)]) (simp_all add: f2(2) ca)
  moreover have "get t3 k ?b w2 = (Inr v2, w2)"
    by (rule get_plain [OF f2(1) sb assms(2,4)]) (simp_all add: f2(2) cb)
  ultimately show ?thesis
    using snd_clear [of now lc w] supportsLS_unchanged [of w now] by simp
qed


theorem prefix_isolation_witness:
  "get 3000 (ascii ''k'') (no_config\<lparr>prefix := Some (PrefixStr (ascii ''a:''))\<rparr>)
      (snd (set_ls 2000 (ascii ''k'') (JNum 2) (no_config\<lparr>prefix := Some (PrefixStr (ascii ''b:''))\<rparr>)
        (snd (set_ls 1000 (ascii ''k'') (JNum 1) (no_config\<lparr>prefix := Some (PrefixStr (ascii ''a:''))\<rparr>)
               new_world))))
     = (Inr (JNum 1),
        snd (set_ls 2000 (ascii ''k'') (JNum 2) (no_config\<lparr>prefix := Some (PrefixStr (ascii ''b:''))\<rparr>)
        (snd (set_ls 1000 (ascii ''k'') (JNum 1) (no_config\<lparr>prefix := Some (PrefixStr (ascii ''a:''))\<rparr>)
               new_world))))
   \<and> fst (get 3000 (ascii ''k'') (no_config\<lparr>prefix := Some (PrefixStr (ascii ''b:''))\<rparr>)
      (snd (set_ls 2000 (ascii ''k'') (JNum 2) (no_config\<lparr>prefix := Some (PrefixStr (ascii ''b:''))\<rparr>)
        (snd (set_ls 1000 (ascii ''k'') (JNum 1) (no_config\<lparr>prefix := Some (PrefixStr (ascii ''a:''))\<rparr>)
               new_world)))))
     = Inr (JNum 2)
   \<and> items (snd (clear 1000 (no_config\<lparr>prefix := Some (PrefixStr (ascii ''a:''))\<rparr>)
               (prefixed_store\<lparr>hasLS := Some True\<rparr>)))
     = [(ascii ''b:y'', str (JObj [(APX, JNum 1), (ttl_key, JNum 5)]))]"
proof -
  let ?a = "no_config\<lparr>prefix := Some (PrefixStr (ascii ''a:''))\<rparr>"
  let ?b = "no_config\<lparr>prefix := Some (PrefixStr (ascii ''b:''))\<rparr>"
  let ?w1 = "snd (set_ls 1000 (ascii ''k'') (JNum 1) ?a new_world)"
  let ?w2 = "snd (set_ls 2000 (ascii ''k'') (JNum 2) ?b ?w1)"
  let ?p = "prefixed_store\<lparr>hasLS := Some True\<rparr>"
  have "fst (set_ls 1000 (ascii ''k'') (JNum 1) ?a new_world) = ReturnsVoid"
    by (simp add: model_simps host_simps new_world_def)
  then have s1: "set_ls 1000 (ascii ''k'') (JNum 1) ?a new_world = (ReturnsVoid, ?w1)"
    by (metis prod.collapse)
  have "fst (set_ls 2000 (ascii ''k'') (JNum 2) ?b ?w1) = ReturnsVoid"
    by (simp add: model_simps host_simps new_world_def)
  then have s2: "set_ls 2000 (ascii ''k'') (JNum 2) ?b ?w1 = (ReturnsVoid, ?w2)"
    by (metis prod.collapse)
  have v: "json_value (JNum 1)" "json_value (JNum 2)" "\<not> hasTTL (JNum 1)" "\<not> hasTTL (JNum 2)"
    by (simp_all add: hasTTL_def isObject_def)
  have p: "ascii ''a:'' \<noteq> []" "ascii ''b:'' \<noteq> []" "ascii ''a:'' \<noteq> ascii ''b:''"
    by (simp_all add: ascii_def)
  have c: "ttl (defaults new_world) = Some TtlNull" "encrypt (defaults new_world) = Some False"
    "decrypt (defaults new_world) \<noteq> Some True"
    by (simp_all add: new_world_def config_def)
  have g: "supportsLS 1000 ?p = (True, ?p)"
    by (simp add: supportsLS_def)
  have t: "truthy_prefix (conf_prefix (defaults prefixed_store) ?a)"
    "prefix_str (conf_prefix (defaults prefixed_store) ?a) = ascii ''a:''"
    by (simp_all add: model_simps prefixed_store_def ascii_def)
  have i: "filter (\<lambda>e. \<not> starts_with (fst e) (ascii ''a:'')) (items prefixed_store)
      = [(ascii ''b:y'', str (JObj [(APX, JNum 1), (ttl_key, JNum 5)]))]"
    by (simp add: prefixed_store_def starts_with_def ascii_def)
  show ?thesis
    using prefix_isolation [OF v p c s1 s2, of 3000 1000 ?a ?p]
    by (simp add: g t i)
qed

end
